theory Spec2Isabelle
  imports Main "HOL-Library.Word"
begin

section \<open>Text\<close>

text \<open>
  A Python 3 \<open>str\<close> is a sequence of Unicode code points and \<open>len\<close> counts code points,
  so a \<open>str\<close> is a list of code points, each a natural number.  A literal of the source is
  written \<open>u ''...''\<close>.  \<open>bytes\<close> are lists of 8-bit words.
\<close>

type_synonym str = "nat list"

type_synonym bytes = "8 word list"

definition u :: "string \<Rightarrow> str" where
  "u s = map of_char s"

definition LF :: str where
  "LF = [10]"

definition CRLF :: str where
  "CRLF = [13, 10]"

text \<open>\<open>s.startswith(p)\<close>.\<close>

fun startswith :: "str \<Rightarrow> str \<Rightarrow> bool" where
  "startswith [] s = True"
| "startswith (p # ps) [] = False"
| "startswith (p # ps) (x # xs) = (p = x \<and> startswith ps xs)"

text \<open>\<open>n in h\<close> on two \<open>str\<close>: \<open>n\<close> occurs in \<open>h\<close> as a contiguous run.\<close>

fun contains :: "str \<Rightarrow> str \<Rightarrow> bool" where
  "contains n [] = (n = [])"
| "contains n (x # xs) = (startswith n (x # xs) \<or> contains n xs)"

text \<open>
  \<open>s.replace(old, new)\<close>: every occurrence of \<open>old\<close>, found from the left and not
  overlapping, becomes \<open>new\<close>.  The counter is the number of code points of the occurrence
  just replaced that are still to be skipped.  With an empty \<open>old\<close> Python puts \<open>new\<close>
  before every code point and at the end.
\<close>

fun replace_from :: "str \<Rightarrow> str \<Rightarrow> nat \<Rightarrow> str \<Rightarrow> str" where
  "replace_from old new k [] = []"
| "replace_from old new (Suc k) (x # xs) = replace_from old new k xs"
| "replace_from old new 0 (x # xs) =
     (if startswith old (x # xs) then new @ replace_from old new (length old - 1) xs
      else x # replace_from old new 0 xs)"

definition replace :: "str \<Rightarrow> str \<Rightarrow> str \<Rightarrow> str" where
  "replace old new s =
     (if old = [] then new @ concat (map (\<lambda>x. x # new) s) else replace_from old new 0 s)"

text \<open>
  \<open>s.split('\r\n')\<close>: the pieces between the occurrences of CR LF, found from the left;
  \<open>cur\<close> is the piece being read.
\<close>

fun split_crlf :: "str \<Rightarrow> str \<Rightarrow> str list" where
  "split_crlf cur [] = [cur]"
| "split_crlf cur [x] = [cur @ [x]]"
| "split_crlf cur (x # y # s) =
     (if x = 13 \<and> y = 10 then cur # split_crlf [] s else split_crlf (cur @ [x]) (y # s))"

text \<open>\<open>sep.join(xs)\<close>.\<close>

fun join :: "str \<Rightarrow> str list \<Rightarrow> str" where
  "join sep [] = []"
| "join sep [x] = x"
| "join sep (x # y # ys) = x @ sep @ join sep (y # ys)"

text \<open>\<open>'{}'.format(n)\<close> for an integer: its decimal digits, with a minus sign when negative.\<close>

fun decimal :: "nat \<Rightarrow> str" where
  "decimal n = (if n < 10 then [48 + n] else decimal (n div 10) @ [48 + n mod 10])"

declare decimal.simps [simp del]

definition format_int :: "int \<Rightarrow> str" where
  "format_int i = (if i < 0 then 45 # decimal (nat (- i)) else decimal (nat i))"

text \<open>\<open>'{}'.format(x)\<close> for a field that holds \<open>None\<close> or a value.\<close>

definition format_opt :: "('a \<Rightarrow> str) \<Rightarrow> 'a option \<Rightarrow> str" where
  "format_opt f x = (case x of None \<Rightarrow> u ''None'' | Some v \<Rightarrow> f v)"

subsection \<open>UTF-8\<close>

text \<open>
  \<open>s.encode()\<close>: the UTF-8 bytes of \<open>s\<close>.  A surrogate code point (U+D800 to U+DFFF) has
  no encoding and Python raises \<open>UnicodeEncodeError\<close>, here \<open>None\<close>; so does a number that
  is no code point, which a \<open>str\<close> never holds.
\<close>

definition encode_cp :: "nat \<Rightarrow> bytes option" where
  "encode_cp c =
     (if c < 0x80 then Some [of_nat c]
      else if c < 0x800 then Some [of_nat (0xC0 + c div 64), of_nat (0x80 + c mod 64)]
      else if c < 0x10000 then
        (if 0xD800 \<le> c \<and> c \<le> 0xDFFF then None
         else Some [of_nat (0xE0 + c div 4096), of_nat (0x80 + c div 64 mod 64),
                    of_nat (0x80 + c mod 64)])
      else if c < 0x110000 then
        Some [of_nat (0xF0 + c div 262144), of_nat (0x80 + c div 4096 mod 64),
              of_nat (0x80 + c div 64 mod 64), of_nat (0x80 + c mod 64)]
      else None)"

fun encode :: "str \<Rightarrow> bytes option" where
  "encode [] = Some []"
| "encode (c # cs) =
     (case encode_cp c of None \<Rightarrow> None
      | Some b \<Rightarrow> (case encode cs of None \<Rightarrow> None | Some bs \<Rightarrow> Some (b @ bs)))"

section \<open>Regular expressions\<close>

text \<open>
  The patterns of the source use literal code points, \<open>.\<close>, \<open>\d\<close>, the greedy \<open>*\<close> and
  \<open>+\<close> on one of these, and groups around one such repetition.  A class is a predicate on
  code points; an item is one class, once or repeated; a pattern is a list of items, each
  plain or captured.  Matching is Python's backtracking: a repetition takes as many code
  points as it can and gives them back one at a time until the rest of the pattern matches.
\<close>

datatype item = One "nat \<Rightarrow> bool" | Star "nat \<Rightarrow> bool" | Plus "nat \<Rightarrow> bool"

datatype elem = Plain item | Capture item

text \<open>\<open>.\<close> matches every code point but the newline (no DOTALL flag is given).\<close>

definition dot :: "nat \<Rightarrow> bool" where
  "dot c = (c \<noteq> 10)"

definition lit :: "str \<Rightarrow> elem list" where
  "lit s = map (\<lambda>c. Plain (One (\<lambda>x. x = c))) s"

text \<open>
  \<open>greedy c k acc s\<close>: \<open>acc\<close> is what the repetition has taken, \<open>s\<close> what is left; the
  longer alternative is tried first, the continuation \<open>k\<close> gets what was taken and the rest.
\<close>

fun greedy :: "(nat \<Rightarrow> bool) \<Rightarrow> (str \<Rightarrow> str \<Rightarrow> 'r option) \<Rightarrow> str \<Rightarrow> str \<Rightarrow> 'r option" where
  "greedy c k acc [] = k acc []"
| "greedy c k acc (x # xs) =
     (if c x then (case greedy c k (acc @ [x]) xs of Some r \<Rightarrow> Some r | None \<Rightarrow> k acc (x # xs))
      else k acc (x # xs))"

fun item_match :: "item \<Rightarrow> (str \<Rightarrow> str \<Rightarrow> 'r option) \<Rightarrow> str \<Rightarrow> 'r option" where
  "item_match (One c) k [] = None"
| "item_match (One c) k (x # xs) = (if c x then k [x] xs else None)"
| "item_match (Star c) k s = greedy c k [] s"
| "item_match (Plus c) k [] = None"
| "item_match (Plus c) k (x # xs) = (if c x then greedy c k [x] xs else None)"

text \<open>
  \<open>rmatch p caps s\<close>: the pattern matched at the start of \<open>s\<close>; the result is the texts of
  the groups and what follows the match.
\<close>

primrec rmatch :: "elem list \<Rightarrow> str list \<Rightarrow> str \<Rightarrow> (str list \<times> str) option" where
  "rmatch [] = (\<lambda>caps s. Some (caps, s))"
| "rmatch (e # p) = (\<lambda>caps s.
     (case e of
        Plain i \<Rightarrow> item_match i (\<lambda>t rest. rmatch p caps rest) s
      | Capture i \<Rightarrow> item_match i (\<lambda>t rest. rmatch p (caps @ [t]) rest) s))"

text \<open>
  \<open>re.findall(p, s)\<close> for a pattern that matches no empty text: the groups of every match,
  scanning from the left; after a match the scan goes on behind it.  The counter is the
  number of code points of the last match still to be skipped.
\<close>

fun findall_from :: "elem list \<Rightarrow> nat \<Rightarrow> str \<Rightarrow> str list list" where
  "findall_from p k [] = []"
| "findall_from p (Suc k) (x # xs) = findall_from p k xs"
| "findall_from p 0 (x # xs) =
     (case rmatch p [] (x # xs) of
        None \<Rightarrow> findall_from p 0 xs
      | Some (caps, rest) \<Rightarrow> caps # findall_from p (length xs - length rest) xs)"

definition findall :: "elem list \<Rightarrow> str \<Rightarrow> str list list" where
  "findall p s = findall_from p 0 s"

text \<open>\<open>m[0] if m else d\<close> on the result of \<open>findall\<close> with a pattern of one group.\<close>

definition first_or :: "str \<Rightarrow> str list list \<Rightarrow> str" where
  "first_or d ms = (case ms of [] \<Rightarrow> d | [] # _ \<Rightarrow> d | (g # _) # _ \<Rightarrow> g)"

section \<open>Extractors\<close>

definition URN_AVTransport :: str where
  "URN_AVTransport = u ''urn:schemas-upnp-org:service:AVTransport:1''"

text \<open>
  \<open>_get_port\<close>: pattern \<open>http://.*:(\d+).*\<close>, then \<open>int\<close> of the group, 80 without a
  match.  In a \<open>str\<close> pattern \<open>\d\<close> is every decimal digit of Unicode and \<open>int\<close> reads
  them all; the table \<open>nd\<close> of these digits, with their values, is the library's and is a
  parameter.
\<close>

definition int_of_digits :: "(nat \<Rightarrow> nat option) \<Rightarrow> str \<Rightarrow> nat" where
  "int_of_digits nd s = foldl (\<lambda>a c. 10 * a + (case nd c of None \<Rightarrow> 0 | Some v \<Rightarrow> v)) 0 s"

definition port_pattern :: "(nat \<Rightarrow> nat option) \<Rightarrow> elem list" where
  "port_pattern nd =
     lit (u ''http://'') @ [Plain (Star dot)] @ lit (u '':'') @
     [Capture (Plus (\<lambda>c. nd c \<noteq> None))] @ [Plain (Star dot)]"

definition get_port :: "(nat \<Rightarrow> nat option) \<Rightarrow> str \<Rightarrow> int" where
  "get_port nd location =
     (case findall (port_pattern nd) location of
        (g # _) # _ \<Rightarrow> int (int_of_digits nd g)
      | _ \<Rightarrow> 80)"

text \<open>
  \<open>_get_control_url\<close>: the newlines are removed, the pattern is
  \<open><serviceType>URN</serviceType>.*<controlURL>(.*)</controlURL>\<close>, the result the group
  of the first match, or the empty text.
\<close>

definition control_url_pattern :: "elem list" where
  "control_url_pattern =
     lit (u ''<serviceType>'') @ lit URN_AVTransport @ lit (u ''</serviceType>'') @
     [Plain (Star dot)] @ lit (u ''<controlURL>'') @ [Capture (Star dot)] @
     lit (u ''</controlURL>'')"

definition get_control_url :: "str \<Rightarrow> str" where
  "get_control_url raw = first_or [] (findall control_url_pattern (replace LF [] raw))"

text \<open>\<open>_get_location_url\<close>.\<close>

fun location_scan :: "str list \<Rightarrow> str" where
  "location_scan [] = []"
| "location_scan (d # ds) =
     (if startswith (u ''LOCATION:'') d then replace (u ''LOCATION: '') [] d
      else location_scan ds)"

definition get_location_url :: "str \<Rightarrow> str" where
  "get_location_url raw = location_scan (split_crlf [] raw)"

text \<open>\<open>_get_friendly_name\<close>: pattern \<open><friendlyName>(.*)</friendlyName>\<close>.\<close>

definition friendly_name_pattern :: "elem list" where
  "friendly_name_pattern =
     lit (u ''<friendlyName>'') @ [Capture (Star dot)] @ lit (u ''</friendlyName>'')"

definition get_friendly_name :: "str \<Rightarrow> str" where
  "get_friendly_name raw = first_or (u ''Unknown'') (findall friendly_name_pattern raw)"

section \<open>Errors, the device and the world\<close>

text \<open>
  The exceptions that the code, or a library call it makes, can raise.  \<open>Exception\<close>
  carries its message.
\<close>

datatype exn =
  UnicodeDecodeError | UnicodeEncodeError | TypeError | OverflowError | OSError
| UnboundLocalError | Exception str

text \<open>
  A call of the program has not returned yet (\<open>Running\<close>, with what it has so far), has
  returned a value, or has raised.
\<close>

datatype 'a outcome = Running 'a | Returned 'a | Raised exn

text \<open>The attributes of \<open>DlnapDevice\<close>; an attribute that holds \<open>None\<close> is \<open>None\<close>.\<close>

record device =
  ip :: str
  port :: "int option"
  control_url :: "str option"
  name :: "str option"
  has_av_transport :: bool
  location :: str

text \<open>\<open>DlnapDevice.__eq__\<close>.\<close>

definition device_eq :: "device \<Rightarrow> device \<Rightarrow> bool" where
  "device_eq a b = (name a = name b \<and> ip a = ip b)"

text \<open>
  What the program does to its surroundings: the state of the multicast socket and the
  datagrams sent on it, the trace of the unicast transport, and the lines printed.
\<close>

datatype sock_state = Sock_None | Sock_Open | Sock_Closed

datatype tcp_event =
  Tcp_Call "str \<times> int option" str
| Tcp_Socket
| Tcp_Connect "str \<times> int"
| Tcp_Sendall bytes
| Tcp_Close

record world =
  udp_socket :: sock_state
  udp_sent :: "((str \<times> int) \<times> bytes) list"
  tcp_trace :: "tcp_event list"
  stdout :: "str list"

definition world0 :: world where
  "world0 = \<lparr>udp_socket = Sock_None, udp_sent = [], tcp_trace = [], stdout = []\<rparr>"

definition print :: "str \<Rightarrow> world \<Rightarrow> world" where
  "print s w = w\<lparr>stdout := stdout w @ [s]\<rparr>"

definition tcp_log :: "tcp_event \<Rightarrow> world \<Rightarrow> world" where
  "tcp_log e w = w\<lparr>tcp_trace := tcp_trace w @ [e]\<rparr>"

section \<open>Transport helpers\<close>

text \<open>
  What the network does is not the program's to decide: for the multicast send, whether
  \<open>socket.socket\<close> and \<open>sendto\<close> succeed.
\<close>

datatype udp_env = Udp_No_Socket | Udp_No_Send | Udp_Ok

text \<open>
  \<open>_send_udp\<close> is a generator under \<open>@contextmanager\<close>.  Entering the \<open>with\<close> statement
  runs it up to the \<open>yield\<close>: the socket is created, the payload encoded and sent.
\<close>

definition send_udp_enter :: "udp_env \<Rightarrow> str \<times> int \<Rightarrow> str \<Rightarrow> world \<Rightarrow> (exn + unit) \<times> world" where
  "send_udp_enter env to payload w =
     (if env = Udp_No_Socket then (Inl OSError, w)
      else let w1 = w\<lparr>udp_socket := Sock_Open\<rparr> in
        (case encode payload of
           None \<Rightarrow> (Inl UnicodeEncodeError, w1)
         | Some bs \<Rightarrow>
             if env = Udp_No_Send then (Inl OSError, w1)
             else (Inr (), w1\<lparr>udp_sent := udp_sent w1 @ [(to, bs)]\<rparr>)))"

text \<open>
  Leaving the \<open>with\<close> statement resumes the generator.  When the body has ended normally
  the generator runs on behind the \<open>yield\<close>, to \<open>sock.close()\<close>.  When the body has
  raised, the exception is raised again at the \<open>yield\<close>; no \<open>try\<close> encloses the
  \<open>yield\<close>, so the exception leaves the generator there and \<open>sock.close()\<close> is not run.
  While the body runs nothing happens.
\<close>

definition send_udp_exit :: "'a outcome \<Rightarrow> world \<Rightarrow> world" where
  "send_udp_exit r w =
     (case r of Returned v \<Rightarrow> w\<lparr>udp_socket := Sock_Closed\<rparr> | Raised e \<Rightarrow> w | Running v \<Rightarrow> w)"

text \<open>
  For one unicast send the network decides whether \<open>socket.socket\<close>, \<open>connect\<close> and
  \<open>sendall\<close> succeed.
\<close>

datatype tcp_env = Tcp_No_Socket | Tcp_No_Connect | Tcp_No_Send | Tcp_Ok

text \<open>
  \<open>_send_tcp\<close>.  The \<open>finally\<close> clause closes the socket on every path; when
  \<open>socket.socket\<close> itself has raised, the variable \<open>sock\<close> is unbound there and
  \<open>UnboundLocalError\<close> replaces the error.  \<open>connect\<close> raises \<open>TypeError\<close> on a port
  that is \<open>None\<close> and \<open>OverflowError\<close> on one outside 0 to 65535.  The payload is
  encoded before \<open>sendall\<close> is called.
\<close>

definition send_tcp :: "tcp_env \<Rightarrow> str \<times> int option \<Rightarrow> str \<Rightarrow> world \<Rightarrow> (exn + unit) \<times> world" where
  "send_tcp env to payload w =
     (let w0 = tcp_log (Tcp_Call to payload) w in
      if env = Tcp_No_Socket then (Inl UnboundLocalError, w0)
      else let w1 = tcp_log Tcp_Socket w0 in
        (case snd to of
           None \<Rightarrow> (Inl TypeError, tcp_log Tcp_Close w1)
         | Some p \<Rightarrow>
             if p < 0 \<or> 65535 < p then (Inl OverflowError, tcp_log Tcp_Close w1)
             else if env = Tcp_No_Connect then (Inl OSError, tcp_log Tcp_Close w1)
             else let w2 = tcp_log (Tcp_Connect (fst to, p)) w1 in
               (case encode payload of
                  None \<Rightarrow> (Inl UnicodeEncodeError, tcp_log Tcp_Close w2)
                | Some bs \<Rightarrow>
                    if env = Tcp_No_Send then (Inl OSError, tcp_log Tcp_Close w2)
                    else (Inr (), tcp_log Tcp_Close (tcp_log (Tcp_Sendall bs) w2)))))"

section \<open>Device construction\<close>

text \<open>
  A datagram is given by what \<open>raw.decode()\<close> makes of it: the text, or
  \<open>UnicodeDecodeError\<close> when the bytes are no UTF-8.  The description document is given by
  what \<open>urlopen(location).read().decode()\<close> makes of it: the text, or an exception with
  its message.
\<close>

datatype datagram = Undecodable | Text str

datatype fetch = Fetch_Failed str | Fetched str

text \<open>
  \<open>DlnapDevice.__init__\<close>.  The datagram is decoded outside the \<open>try\<close>.  Inside it,
  the two extractors on the datagram cannot raise; the fetch can, and the handler then
  prints the exception, the address and the location and leaves the attributes as they are.
\<close>

definition DlnapDevice_init ::
  "(nat \<Rightarrow> nat option) \<Rightarrow> datagram \<Rightarrow> str \<Rightarrow> fetch \<Rightarrow> world \<Rightarrow> (exn + device) \<times> world" where
  "DlnapDevice_init nd data addr f w =
     (case data of
        Undecodable \<Rightarrow> (Inl UnicodeDecodeError, w)
      | Text raw \<Rightarrow>
          (let d0 = \<lparr>ip = addr, port = None, control_url = None, name = None,
                     has_av_transport = False, location = get_location_url raw\<rparr>;
               d1 = d0\<lparr>port := Some (get_port nd (location d0))\<rparr>
           in case f of
                Fetch_Failed e \<Rightarrow> (Inr d1, print (location d1) (print (ip d1) (print e w)))
              | Fetched desc_xml \<Rightarrow>
                  (Inr (d1\<lparr>name := Some (get_friendly_name desc_xml),
                            has_av_transport :=
                              contains (u ''<serviceType>'' @ URN_AVTransport @ u ''</serviceType>'')
                                desc_xml,
                            control_url := Some (get_control_url desc_xml)\<rparr>), w)))"

section \<open>Commands\<close>

text \<open>The methods \<open>_set_av\<close>, \<open>_play\<close> and \<open>play\<close> of \<open>DlnapDevice\<close>.\<close>

definition set_av_payload :: "str \<Rightarrow> int \<Rightarrow> str" where
  \<open>set_av_payload url instance_id =
     u ''<?xml version="1.0" encoding="utf-8"?>'' @ LF @
     u ''         <s:Envelope xmlns:s="http://schemas.xmlsoap.org/soap/envelope/" s:encodingStyle="http://schemas.xmlsoap.org/soap/encoding/">'' @ LF @
     u ''            <s:Body>'' @ LF @
     u ''               <u:SetAVTransportURI xmlns:u="'' @ URN_AVTransport @ u ''">'' @ LF @
     u ''                  <InstanceID>'' @ format_int instance_id @ u ''</InstanceID>'' @ LF @
     u ''                  <CurrentURI>'' @ url @ u ''</CurrentURI>'' @ LF @
     u ''                  <CurrentURIMetaData />'' @ LF @
     u ''               </u:SetAVTransportURI>'' @ LF @
     u ''            </s:Body>'' @ LF @
     u ''         </s:Envelope>''\<close>

definition set_av_header :: "device \<Rightarrow> str \<Rightarrow> str list" where
  \<open>set_av_header self payload =
     [u ''POST '' @ format_opt (\<lambda>s. s) (control_url self) @ u '' HTTP/1.1'',
      u ''User-Agent: dlnap/0.1'',
      u ''Accept: */*'',
      u ''Content-Type: text/xml; charset="utf-8"'',
      u ''HOST: '' @ ip self @ u '':'' @ format_opt format_int (port self),
      u ''Content-Length: '' @ format_int (int (length payload)),
      u ''SOAPACTION: "'' @ URN_AVTransport @ u ''#SetAVTransportURI"'',
      u ''Connection: close'',
      [],
      payload]\<close>

definition set_av :: "tcp_env \<Rightarrow> device \<Rightarrow> str \<Rightarrow> int \<Rightarrow> world \<Rightarrow> (exn + unit) \<times> world" where
  "set_av env self url instance_id w =
     (let payload = set_av_payload url instance_id;
          header = join CRLF (set_av_header self payload)
      in send_tcp env (ip self, port self) header w)"

definition play_payload :: "int \<Rightarrow> str" where
  \<open>play_payload instance_id =
     u ''<?xml version="1.0" encoding="utf-8"?>'' @ LF @
     u ''         <s:Envelope xmlns:s="http://schemas.xmlsoap.org/soap/envelope/" s:encodingStyle="http://schemas.xmlsoap.org/soap/encoding/">'' @ LF @
     u ''            <s:Body>'' @ LF @
     u ''               <u:Play xmlns:u="'' @ URN_AVTransport @ u ''">'' @ LF @
     u ''                  <InstanceID>'' @ format_int instance_id @ u ''</InstanceID>'' @ LF @
     u ''                  <Speed>1</Speed>'' @ LF @
     u ''               </u:Play>'' @ LF @
     u ''            </s:Body>'' @ LF @
     u ''         </s:Envelope>''\<close>

definition play_header :: "device \<Rightarrow> str \<Rightarrow> str list" where
  \<open>play_header self payload =
     [u ''POST '' @ format_opt (\<lambda>s. s) (control_url self) @ u '' HTTP/1.1'',
      u ''User-Agent: dlnap/0.1'',
      u ''Accept: */*'',
      u ''Content-Type: text/xml; charset="utf-8"'',
      u ''HOST: '' @ ip self @ u '':'' @ format_opt format_int (port self),
      u ''Content-Length: '' @ format_int (int (length payload)),
      u ''SOAPACTION: "'' @ URN_AVTransport @ u ''#Play"'',
      u ''Connection: close'',
      [],
      payload]\<close>

definition play_action :: "tcp_env \<Rightarrow> device \<Rightarrow> int \<Rightarrow> world \<Rightarrow> (exn + unit) \<times> world" where
  "play_action env self instance_id w =
     (let payload = play_payload instance_id;
          header = join CRLF (play_header self payload)
      in send_tcp env (ip self, port self) header w)"

text \<open>
  \<open>play\<close>: \<open>self._set_av(url)\<close>, then \<open>self._play()\<close>; an exception of the first call
  leaves \<open>play\<close> at once.  \<open>env1\<close> and \<open>env2\<close> are what the network does at the first and
  at the second send.
\<close>

definition play :: "tcp_env \<Rightarrow> tcp_env \<Rightarrow> device \<Rightarrow> str \<Rightarrow> world \<Rightarrow> (exn + unit) \<times> world" where
  "play env1 env2 self url w =
     (case set_av env1 self url 0 w of
        (Inl e, w1) \<Rightarrow> (Inl e, w1)
      | (Inr v, w1) \<Rightarrow> play_action env2 self 0 w1)"

section \<open>Discovery\<close>

definition SSDP_GROUP :: "str \<times> int" where
  "SSDP_GROUP = (u ''239.255.255.250'', 1900)"

definition discover_payload :: "str \<Rightarrow> int \<Rightarrow> str" where
  \<open>discover_payload st mx =
     join CRLF
       [u ''M-SEARCH * HTTP/1.1'',
        u ''HOST: '' @ fst SSDP_GROUP @ u '':'' @ format_int (snd SSDP_GROUP),
        u ''Accept: */*'',
        u ''MAN: "ssdp:discover"'',
        u ''ST: '' @ st,
        u ''MX: '' @ format_int mx,
        [],
        []]\<close>

text \<open>
  The test \<open>not name or name is None or name in d.name\<close>.  The filter is \<open>None\<close> or a
  text; \<open>not name\<close> holds for \<open>None\<close> and for the empty text.  With any other filter
  \<open>name in d.name\<close> is evaluated, and on a device whose name is still \<open>None\<close> the
  operator \<open>in\<close> raises \<open>TypeError\<close>.
\<close>

definition name_test :: "str option \<Rightarrow> device \<Rightarrow> exn + bool" where
  "name_test nm d =
     (case nm of
        None \<Rightarrow> Inr True
      | Some n \<Rightarrow>
          if n = [] then Inr True
          else (case name d of None \<Rightarrow> Inl TypeError | Some dn \<Rightarrow> Inr (contains n dn)))"

text \<open>
  One turn of the loop begins with the test of the clock.  \<open>Expired\<close> is a turn at which
  \<open>time.time() - start > timeout\<close> holds; any other turn goes on to \<open>select\<close>, which
  reports the socket readable (then one datagram is read, from the given address, and the
  fetch of its description ends as given), or not readable but in error, or neither.
\<close>

datatype event = Readable datagram str fetch | Errored | Idle

datatype tick = Expired | Waited event

text \<open>
  The loop of \<open>discover\<close> over the turns that the surroundings supply.  When they are used
  up the loop is still running.
\<close>

fun discover_loop ::
  "(nat \<Rightarrow> nat option) \<Rightarrow> str option \<Rightarrow> tick list \<Rightarrow> device list \<Rightarrow> world
     \<Rightarrow> device list outcome \<times> world" where
  "discover_loop nd nm [] devices w = (Running devices, w)"
| "discover_loop nd nm (Expired # ts) devices w = (Returned devices, w)"
| "discover_loop nd nm (Waited (Readable data addr f) # ts) devices w =
     (case DlnapDevice_init nd data addr f w of
        (Inl e, w1) \<Rightarrow> (Raised e, w1)
      | (Inr d, w1) \<Rightarrow>
          if \<not> list_ex (\<lambda>x. device_eq x d) devices then
            (case name_test nm d of
               Inl e \<Rightarrow> (Raised e, w1)
             | Inr keep \<Rightarrow>
                 if keep then discover_loop nd nm ts (devices @ [d]) w1
                 else discover_loop nd nm ts devices w1)
          else discover_loop nd nm ts devices w1)"
| "discover_loop nd nm (Waited Errored # ts) devices w =
     (Raised (Exception (u ''Getting response failed'')), w)"
| "discover_loop nd nm (Waited Idle # ts) devices w = discover_loop nd nm ts devices w"

text \<open>
  \<open>discover\<close>: the payload is built, the \<open>with\<close> statement is entered, the loop runs
  inside it, the statement is left, the list is returned.
\<close>

definition discover ::
  "(nat \<Rightarrow> nat option) \<Rightarrow> udp_env \<Rightarrow> str option \<Rightarrow> str \<Rightarrow> int \<Rightarrow> tick list \<Rightarrow> world
     \<Rightarrow> device list outcome \<times> world" where
  "discover nd env nm st mx ts w =
     (case send_udp_enter env SSDP_GROUP (discover_payload st mx) w of
        (Inl e, w1) \<Rightarrow> (Raised e, w1)
      | (Inr v, w1) \<Rightarrow>
          (case discover_loop nd nm ts [] w1 of
             (r, w2) \<Rightarrow> (r, send_udp_exit r w2)))"

section \<open>Observations and examples\<close>

text \<open>
  The unicast sends that were issued: the calls of \<open>_send_tcp\<close> recorded in a trace, each
  with its target and its request text.
\<close>

fun issued :: "tcp_event list \<Rightarrow> ((str \<times> int option) \<times> str) list" where
  "issued [] = []"
| "issued (Tcp_Call to payload # es) = (to, payload) # issued es"
| "issued (Tcp_Socket # es) = issued es"
| "issued (Tcp_Connect a # es) = issued es"
| "issued (Tcp_Sendall b # es) = issued es"
| "issued (Tcp_Close # es) = issued es"

text \<open>The ASCII part of the table of decimal digits, for the examples.\<close>

definition ascii_digit :: "nat \<Rightarrow> nat option" where
  "ascii_digit c = (if 48 \<le> c \<and> c \<le> 57 then Some (c - 48) else None)"

section \<open>Device construction: what a failed fetch leaves\<close>

lemma init_fst_world:
  "fst (DlnapDevice_init nd data addr f w) = fst (DlnapDevice_init nd data addr f w')"
  by (simp add: DlnapDevice_init_def Let_def split: datagram.splits fetch.splits)

lemma init_failed:
  assumes "DlnapDevice_init nd (Text raw) addr (Fetch_Failed e) w = (r, w')"
  shows "\<exists>d. r = Inr d \<and> ip d = addr \<and> name d = None \<and> \<not> has_av_transport d \<and> control_url d = None"
  using assms by (auto simp: DlnapDevice_init_def Let_def)

lemma init_unnamed:
  assumes "DlnapDevice_init nd data addr f w = (Inr d, w')" and "name d = None"
  shows "\<not> has_av_transport d \<and> control_url d = None"
  using assms by (auto simp: DlnapDevice_init_def Let_def split: datagram.splits fetch.splits)

section \<open>The discovery loop: case rule and invariants\<close>

lemma loop_Readable_cases:
  assumes "discover_loop nd nm (Waited (Readable data addr f) # ts) devs w = (r, w')"
    and "\<And>e. r \<noteq> Raised e"
  obtains (dup) d w1 where "DlnapDevice_init nd data addr f w = (Inr d, w1)"
      and "list_ex (\<lambda>x. device_eq x d) devs"
      and "discover_loop nd nm ts devs w1 = (r, w')"
  | (keep) d w1 where "DlnapDevice_init nd data addr f w = (Inr d, w1)"
      and "\<not> list_ex (\<lambda>x. device_eq x d) devs" and "name_test nm d = Inr True"
      and "discover_loop nd nm ts (devs @ [d]) w1 = (r, w')"
  | (drop) d w1 where "DlnapDevice_init nd data addr f w = (Inr d, w1)"
      and "\<not> list_ex (\<lambda>x. device_eq x d) devs" and "name_test nm d = Inr False"
      and "discover_loop nd nm ts devs w1 = (r, w')"
proof -
  obtain x w1 where init: "DlnapDevice_init nd data addr f w = (x, w1)"
    by (cases "DlnapDevice_init nd data addr f w")
  show thesis
  proof (cases x)
    case (Inl e)
    with init assms(1) have "r = Raised e" by auto
    with assms(2)[of e] show thesis by simp
  next
    case (Inr d)
    with init assms(1) have run:
      "(if \<not> list_ex (\<lambda>x. device_eq x d) devs then
          (case name_test nm d of Inl e \<Rightarrow> (Raised e, w1)
           | Inr k \<Rightarrow> if k then discover_loop nd nm ts (devs @ [d]) w1
                      else discover_loop nd nm ts devs w1)
        else discover_loop nd nm ts devs w1) = (r, w')"
      by simp
    show thesis
    proof (cases "list_ex (\<lambda>x. device_eq x d) devs")
      case True
      with run init Inr dup show thesis by simp
    next
      case False
      show thesis
      proof (cases "name_test nm d")
        case (Inl e)
        with run False have "r = Raised e" by auto
        with assms(2)[of e] show thesis by simp
      next
        case k: (Inr b)
        show thesis
        proof (cases b)
          case True
          with run False k init Inr keep show thesis by simp
        next
          case nb: False
          with run False k init Inr drop show thesis by simp
        qed
      qed
    qed
  qed
qed

lemma loop_rule:
  assumes step: "\<And>devs data addr f w d w1. I devs \<Longrightarrow>
      DlnapDevice_init nd data addr f w = (Inr d, w1) \<Longrightarrow>
      \<not> list_ex (\<lambda>x. device_eq x d) devs \<Longrightarrow> name_test nm d = Inr True \<Longrightarrow> I (devs @ [d])"
  shows "discover_loop nd nm ts devs w = (r, w') \<Longrightarrow> r = Running ds \<or> r = Returned ds \<Longrightarrow>
      I devs \<Longrightarrow> I ds"
proof (induction ts arbitrary: devs w)
  case Nil
  then show ?case by auto
next
  case (Cons t ts)
  from Cons.prems(2) have nr: "\<And>e. r \<noteq> Raised e" by auto
  show ?case
  proof (cases t)
    case Expired
    with Cons.prems show ?thesis by auto
  next
    case (Waited ev)
    show ?thesis
    proof (cases ev)
      case Idle
      with Waited Cons show ?thesis by simp
    next
      case Errored
      with Waited Cons.prems show ?thesis by auto
    next
      case (Readable data addr f)
      from Cons.prems(1) have h: "discover_loop nd nm (Waited (Readable data addr f) # ts) devs w = (r, w')"
        by (simp only: Waited Readable)
      show ?thesis
      proof (rule loop_Readable_cases[OF h nr], goal_cases)
        case (1 d w1)
        from Cons.IH[OF 1(3) Cons.prems(2) Cons.prems(3)] show ?case .
      next
        case (2 d w1)
        from step[OF Cons.prems(3) 2(1) 2(2) 2(3)] have "I (devs @ [d])" .
        from Cons.IH[OF 2(4) Cons.prems(2) this] show ?case .
      next
        case (3 d w1)
        from Cons.IH[OF 3(4) Cons.prems(2) Cons.prems(3)] show ?case .
      qed
    qed
  qed
qed

lemma loop_mono:
  assumes "discover_loop nd nm ts devs w = (Returned ds, w')"
  shows "set devs \<subseteq> set ds"
  by (rule loop_rule[where I="\<lambda>l. set devs \<subseteq> set l", OF _ assms]) auto

lemma loop_all:
  assumes "discover_loop nd nm ts devs w = (r, w')" and "r = Running ds \<or> r = Returned ds"
    and "\<forall>d\<in>set devs. P d"
    and "\<And>data addr f w d w1. DlnapDevice_init nd data addr f w = (Inr d, w1) \<Longrightarrow>
            name_test nm d = Inr True \<Longrightarrow> P d"
  shows "\<forall>d\<in>set ds. P d"
  by (rule loop_rule[where I="\<lambda>l. \<forall>d\<in>set l. P d", OF _ assms(1,2,3)]) (auto intro: assms(4))

lemma loop_append:
  "discover_loop nd nm (pre @ ts) devs w =
     (case discover_loop nd nm pre devs w of
        (Running ds, w1) \<Rightarrow> discover_loop nd nm ts ds w1
      | (r, w1) \<Rightarrow> (r, w1))"
proof (induction nd nm pre devs w rule: discover_loop.induct)
  case (3 nd nm data addr f ts devices w)
  then show ?case
    by (auto split: prod.splits sum.splits if_splits)
qed auto

section \<open>The discovery loop: what the result list holds\<close>

lemma discover_loop_result:
  assumes "discover nd env nm st mx ts w = (r, w')" and "\<And>e. r \<noteq> Raised e"
  obtains w1 w2 where "send_udp_enter env SSDP_GROUP (discover_payload st mx) w = (Inr (), w1)"
    and "discover_loop nd nm ts [] w1 = (r, w2)" and "w' = send_udp_exit r w2"
proof -
  obtain x w1 where enter: "send_udp_enter env SSDP_GROUP (discover_payload st mx) w = (x, w1)"
    by (cases "send_udp_enter env SSDP_GROUP (discover_payload st mx) w")
  show thesis
  proof (cases x)
    case (Inl e)
    with enter assms(1) have "r = Raised e" by (auto simp: discover_def)
    with assms(2)[of e] show thesis by simp
  next
    case (Inr v)
    obtain r2 w2 where loop: "discover_loop nd nm ts [] w1 = (r2, w2)"
      by (cases "discover_loop nd nm ts [] w1")
    from assms(1) enter Inr loop have "(r2, send_udp_exit r2 w2) = (r, w')"
      by (auto simp: discover_def)
    then have "r2 = r" and "w' = send_udp_exit r w2" by auto
    with loop enter Inr that show thesis by simp
  qed
qed

lemma name_test_cong:
  "name a = name b \<Longrightarrow> name_test nm a = name_test nm b"
  by (simp add: name_test_def split: option.splits)

lemma loop_present:
  assumes "fst (DlnapDevice_init nd data addr f w0) = Inr d"
    and "name_test nm d = Inr True"
  shows "discover_loop nd nm ts devs w = (Returned ds, w') \<Longrightarrow>
    Waited (Readable data addr f) \<in> set (takeWhile (\<lambda>t. t \<noteq> Expired) ts) \<Longrightarrow>
    \<exists>x\<in>set ds. device_eq x d"
proof (induction ts arbitrary: devs w)
  case Nil
  then show ?case by simp
next
  case (Cons t ts)
  have nr: "\<And>e. Returned ds \<noteq> Raised e" by simp
  show ?case
  proof (cases t)
    case Expired
    with Cons.prems(2) show ?thesis by simp
  next
    case (Waited ev)
    show ?thesis
    proof (cases ev)
      case Idle
      with Waited Cons show ?thesis by simp
    next
      case Errored
      with Waited Cons.prems(1) show ?thesis by simp
    next
      case (Readable data' addr' f')
      from Cons.prems(1)
      have h: "discover_loop nd nm (Waited (Readable data' addr' f') # ts) devs w = (Returned ds, w')"
        by (simp only: Waited Readable)
      from Cons.prems(2) Waited Readable
      have where_: "(data' = data \<and> addr' = addr \<and> f' = f) \<or>
          Waited (Readable data addr f) \<in> set (takeWhile (\<lambda>t. t \<noteq> Expired) ts)"
        by auto
      show ?thesis
      proof (rule loop_Readable_cases[OF h nr], goal_cases)
        case (1 d' w1)
        show ?case
        proof (cases "data' = data \<and> addr' = addr \<and> f' = f")
          case True
          with 1(1) assms(1) init_fst_world[of nd data addr f w w0] have "d' = d" by simp
          with 1(2) obtain x where "x \<in> set devs" "device_eq x d" by (auto simp: list_ex_iff)
          with loop_mono[OF 1(3)] show ?thesis by auto
        next
          case False
          with where_ Cons.IH[OF 1(3)] show ?thesis by simp
        qed
      next
        case (2 d' w1)
        show ?case
        proof (cases "data' = data \<and> addr' = addr \<and> f' = f")
          case True
          with 2(1) assms(1) init_fst_world[of nd data addr f w w0] have "d' = d" by simp
          with loop_mono[OF 2(4)] have "d \<in> set ds" by auto
          then show ?thesis by (auto simp: device_eq_def)
        next
          case False
          with where_ Cons.IH[OF 2(4)] show ?thesis by simp
        qed
      next
        case (3 d' w1)
        show ?case
        proof (cases "data' = data \<and> addr' = addr \<and> f' = f")
          case True
          with 3(1) assms(1) init_fst_world[of nd data addr f w w0] have "d' = d" by simp
          with 3(3) assms(2) show ?thesis by simp
        next
          case False
          with where_ Cons.IH[OF 3(4)] show ?thesis by simp
        qed
      qed
    qed
  qed
qed

lemma loop_absent:
  assumes "discover_loop nd nm ts [] w = (Returned ds, w')" and "name_test nm d = Inr False"
  shows "filter (\<lambda>x. device_eq x d) ds = []"
proof -
  have kept: "\<forall>x\<in>set ds. name_test nm x = Inr True"
    by (rule loop_all[OF assms(1)]) simp_all
  have "\<not> device_eq x d" if "x \<in> set ds" for x
  proof
    assume "device_eq x d"
    then have "name_test nm x = name_test nm d"
      by (intro name_test_cong) (simp add: device_eq_def)
    with kept that assms(2) show False by simp
  qed
  then show ?thesis by (simp add: filter_empty_conv)
qed

lemma loop_distinct:
  assumes "discover_loop nd nm ts [] w = (Returned ds, w')"
  shows "length (filter (\<lambda>x. device_eq x d) ds) \<le> 1"
proof -
  have "\<forall>d. length (filter (\<lambda>x. device_eq x d) ds) \<le> 1"
  proof (rule loop_rule[where I="\<lambda>l. \<forall>d. length (filter (\<lambda>x. device_eq x d) l) \<le> 1",
        OF _ assms])
    show "Returned ds = Running ds \<or> Returned ds = Returned ds" by simp
    show "\<forall>d. length (filter (\<lambda>x. device_eq x d) []) \<le> 1" by simp
  next
    fix devs :: "device list" and data addr f w and d' :: device and w1
    assume inv: "\<forall>d. length (filter (\<lambda>x. device_eq x d) devs) \<le> 1"
      and fresh: "\<not> list_ex (\<lambda>x. device_eq x d') devs"
    show "\<forall>d. length (filter (\<lambda>x. device_eq x d) (devs @ [d'])) \<le> 1"
    proof
      fix d
      show "length (filter (\<lambda>x. device_eq x d) (devs @ [d'])) \<le> 1"
      proof (cases "device_eq d' d")
        case True
        with fresh have "filter (\<lambda>x. device_eq x d) devs = []"
          by (auto simp: filter_empty_conv list_ex_iff device_eq_def)
        with True show ?thesis by simp
      next
        case False
        with inv show ?thesis by simp
      qed
    qed
  qed
  then show ?thesis by simp
qed

lemma name_test_named:
  assumes "n \<noteq> []" and "name_test (Some n) d = Inr True"
  shows "name d \<noteq> None"
  using assms by (auto simp: name_test_def split: option.splits)

lemma loop_named:
  assumes "n \<noteq> []" and "discover_loop nd (Some n) ts [] w = (Running ds, w')"
  shows "\<forall>d\<in>set ds. name d \<noteq> None"
proof (rule loop_all[OF assms(2)])
  show "Running ds = Running ds \<or> Running ds = Returned ds" by simp
  show "\<forall>d\<in>set []. name d \<noteq> None" by simp
  fix data addr f w d w1
  assume "name_test (Some n) d = Inr True"
  with assms(1) show "name d \<noteq> None" by (rule name_test_named)
qed

lemma loop_unnamed_fields:
  assumes "discover_loop nd nm ts [] w = (Returned ds, w')"
  shows "\<forall>x\<in>set ds. name x = None \<longrightarrow> \<not> has_av_transport x \<and> control_url x = None"
proof (rule loop_all[OF assms])
  show "Returned ds = Running ds \<or> Returned ds = Returned ds" by simp
  show "\<forall>x\<in>set []. name x = None \<longrightarrow> \<not> has_av_transport x \<and> control_url x = None" by simp
  fix data addr f w d w1
  assume "DlnapDevice_init nd data addr f w = (Inr d, w1)"
  then show "name d = None \<longrightarrow> \<not> has_av_transport d \<and> control_url d = None"
    using init_unnamed by blast
qed

section \<open>Matching: literal runs and repetitions\<close>

lemma rmatch_lit:
  "rmatch (lit l @ p) caps s =
     (if startswith l s then rmatch p caps (drop (length l) s) else None)"
proof (induction l arbitrary: s)
  case Nil
  then show ?case by (simp add: lit_def)
next
  case (Cons a l)
  have step: "lit (a # l) @ p = Plain (One (\<lambda>x. x = a)) # (lit l @ p)"
    by (simp add: lit_def)
  show ?case
  proof (cases s)
    case Nil
    then show ?thesis by (simp add: step)
  next
    case (Cons x xs)
    with Cons.IH[of xs] show ?thesis by (auto simp: step)
  qed
qed

lemma rmatch_lit_end:
  "rmatch (lit l) caps s = (if startswith l s then Some (caps, drop (length l) s) else None)"
  using rmatch_lit[of l "[]" caps s] by simp

lemma rmatch_Plain_Star:
  "rmatch (Plain (Star c) # p) caps s = greedy c (\<lambda>t rest. rmatch p caps rest) [] s"
  by simp

lemma rmatch_Capture_Star:
  "rmatch (Capture (Star c) # p) caps s = greedy c (\<lambda>t rest. rmatch p (caps @ [t]) rest) [] s"
  by simp

lemma rmatch_Capture_Plus:
  "rmatch (Capture (Plus c) # p) caps s =
     (case s of [] \<Rightarrow> None
      | x # xs \<Rightarrow> if c x then greedy c (\<lambda>t rest. rmatch p (caps @ [t]) rest) [x] xs else None)"
  by (cases s) simp_all

lemmas rmatch_eval = rmatch_lit rmatch_lit_end rmatch_Plain_Star rmatch_Capture_Star
  rmatch_Capture_Plus

section \<open>The extractors: defaults and examples\<close>

text \<open>Without the opening tag, or without the service type, the default is returned.\<close>

lemma startswith_iff: "startswith n s \<longleftrightarrow> (\<exists>b. s = n @ b)"
proof (induction n s rule: startswith.induct)
  case (3 p ps x xs)
  then show ?case by auto
qed simp_all

lemma contains_iff: "contains n s \<longleftrightarrow> (\<exists>a b. s = a @ n @ b)"
proof (induction s)
  case Nil
  then show ?case by auto
next
  case (Cons x xs)
  show ?case
  proof
    assume "contains n (x # xs)"
    then consider "startswith n (x # xs)" | "contains n xs" by auto
    then show "\<exists>a b. x # xs = a @ n @ b"
    proof cases
      case 1
      then obtain b where "x # xs = n @ b" by (auto simp: startswith_iff)
      then have "x # xs = [] @ n @ b" by simp
      then show ?thesis by blast
    next
      case 2
      with Cons.IH obtain a b where "xs = a @ n @ b" by blast
      then have "x # xs = (x # a) @ n @ b" by simp
      then show ?thesis by blast
    qed
  next
    assume "\<exists>a b. x # xs = a @ n @ b"
    then obtain a b where ab: "x # xs = a @ n @ b" by blast
    show "contains n (x # xs)"
    proof (cases a)
      case Nil
      with ab have "startswith n (x # xs)" by (auto simp: startswith_iff)
      then show ?thesis by simp
    next
      case (Cons y ys)
      with ab have "xs = ys @ n @ b" by simp
      with Cons.IH have "contains n xs" by blast
      then show ?thesis by simp
    qed
  qed
qed

lemma contains_inner: "contains (a @ n @ b) s \<Longrightarrow> contains n s"
proof -
  assume "contains (a @ n @ b) s"
  then obtain c d where "s = c @ (a @ n @ b) @ d" by (auto simp: contains_iff)
  then have "s = (c @ a) @ n @ (b @ d)" by simp
  then show ?thesis unfolding contains_iff by blast
qed

lemma lit_append: "lit (a @ b) = lit a @ lit b"
  by (simp add: lit_def)

lemma findall_no_prefix:
  "\<not> contains l s \<Longrightarrow> findall_from (lit l @ p) k s = []"
proof (induction s arbitrary: k)
  case Nil
  then show ?case by simp
next
  case (Cons x xs)
  then have no: "\<not> startswith l (x # xs)" and rest: "\<not> contains l xs" by simp_all
  show ?case
  proof (cases k)
    case 0
    from no have "rmatch (lit l @ p) [] (x # xs) = None" by (simp only: rmatch_lit if_False)
    with 0 Cons.IH[OF rest] show ?thesis by simp
  next
    case (Suc j)
    with Cons.IH[OF rest] show ?thesis by simp
  qed
qed

lemma get_friendly_name_absent:
  "\<not> contains (u ''<friendlyName>'') raw \<Longrightarrow> get_friendly_name raw = u ''Unknown''"
  by (simp add: get_friendly_name_def friendly_name_pattern_def findall_def findall_no_prefix
      first_or_def)

lemma get_control_url_absent:
  assumes "\<not> contains URN_AVTransport (replace LF [] raw)"
  shows "get_control_url raw = []"
proof -
  have "\<not> contains (u ''<serviceType>'' @ URN_AVTransport @ u ''</serviceType>'')
          (replace LF [] raw)"
    using assms contains_inner by blast
  then have "findall_from
      (lit (u ''<serviceType>'' @ URN_AVTransport @ u ''</serviceType>'') @
       [Plain (Star dot)] @ lit (u ''<controlURL>'') @ [Capture (Star dot)] @
       lit (u ''</controlURL>'')) 0 (replace LF [] raw) = []"
    by (rule findall_no_prefix)
  then show ?thesis
    by (simp add: get_control_url_def control_url_pattern_def findall_def lit_append
        first_or_def)
qed

lemma location_scan_absent:
  "\<forall>d\<in>set ds. \<not> startswith (u ''LOCATION:'') d \<Longrightarrow> location_scan ds = []"
  by (induction ds) simp_all

lemma get_location_url_absent:
  "\<forall>d\<in>set (split_crlf [] raw). \<not> startswith (u ''LOCATION:'') d \<Longrightarrow> get_location_url raw = []"
  by (simp add: get_location_url_def location_scan_absent)

text \<open>The examples that the specification gives for the extractors.\<close>

lemma example_port:
  "get_port ascii_digit (u ''http://10.0.0.5:8080/desc.xml'') = 8080"
  "get_port ascii_digit (u ''http://10.0.0.5/desc.xml'') = 80"
  by (simp_all add: get_port_def port_pattern_def findall_def rmatch_eval dot_def u_def
      ascii_digit_def int_of_digits_def del: rmatch.simps(2))

lemma example_friendly_name:
  "get_friendly_name (u ''<friendlyName>Living Room TV</friendlyName>'') = u ''Living Room TV''"
  by (simp add: get_friendly_name_def friendly_name_pattern_def findall_def rmatch_eval dot_def
      u_def first_or_def del: rmatch.simps(2))

lemma example_control_url:
  "get_control_url
     (u ''<service>'' @ LF @
      u ''<serviceType>urn:schemas-upnp-org:service:AVTransport:1</serviceType>'' @ LF @
      u ''<controlURL>/ctrl</controlURL>'' @ LF @ u ''</service>'') = u ''/ctrl''"
  by (simp add: get_control_url_def control_url_pattern_def URN_AVTransport_def findall_def
      rmatch_eval dot_def u_def first_or_def replace_def LF_def del: rmatch.simps(2))

lemma example_location:
  "get_location_url
     (u ''HTTP/1.1 200 OK'' @ CRLF @ u ''LOCATION: http://10.0.0.5:80/desc.xml'' @ CRLF @ CRLF)
   = u ''http://10.0.0.5:80/desc.xml''"
  by (simp add: get_location_url_def u_def CRLF_def replace_def)

section \<open>The multicast socket\<close>

text \<open>
  Once the socket exists, it is closed exactly when \<open>discover\<close> returns; after any
  exception it is open.
\<close>

lemma init_socket:
  "udp_socket (snd (DlnapDevice_init nd data addr f w)) = udp_socket w"
  by (simp add: DlnapDevice_init_def Let_def print_def split: datagram.splits fetch.splits)

lemma loop_socket:
  "udp_socket (snd (discover_loop nd nm ts devs w)) = udp_socket w"
proof (induction nd nm ts devs w rule: discover_loop.induct)
  case (3 nd nm data addr f ts devices w)
  obtain x w1 where init: "DlnapDevice_init nd data addr f w = (x, w1)"
    by (cases "DlnapDevice_init nd data addr f w")
  with init_socket[of nd data addr f w] have w1: "udp_socket w1 = udp_socket w" by simp
  show ?case
  proof (cases x)
    case (Inl e)
    with init w1 show ?thesis by simp
  next
    case (Inr d)
    with init w1 3 show ?thesis
      by (auto split: sum.splits)
  qed
qed simp_all

lemma discover_socket:
  assumes "env \<noteq> Udp_No_Socket"
  shows "udp_socket (snd (discover nd env nm st mx ts w)) =
     (case fst (discover nd env nm st mx ts w) of
        Returned ds \<Rightarrow> Sock_Closed | Raised e \<Rightarrow> Sock_Open | Running ds \<Rightarrow> Sock_Open)"
proof -
  obtain x w1 where enter: "send_udp_enter env SSDP_GROUP (discover_payload st mx) w = (x, w1)"
    by (cases "send_udp_enter env SSDP_GROUP (discover_payload st mx) w")
  with assms have w1: "udp_socket w1 = Sock_Open"
    by (auto simp: send_udp_enter_def Let_def split: option.splits if_splits)
  show ?thesis
  proof (cases x)
    case (Inl e)
    with enter w1 show ?thesis by (simp add: discover_def)
  next
    case (Inr v)
    obtain r w2 where loop: "discover_loop nd nm ts [] w1 = (r, w2)"
      by (cases "discover_loop nd nm ts [] w1")
    with loop_socket[of nd nm ts "[]" w1] w1 have "udp_socket w2 = Sock_Open" by simp
    with enter Inr loop show ?thesis
      by (cases r) (simp_all add: discover_def send_udp_exit_def)
  qed
qed

section \<open>Encoding and lengths\<close>

lemma encode_ascii:
  "\<forall>c\<in>set s. c < 128 \<Longrightarrow> encode s = Some (map of_nat s)"
  by (induction s) (simp_all add: encode_cp_def)

lemma encode_append:
  "encode (a @ b) =
     (case encode a of None \<Rightarrow> None
      | Some x \<Rightarrow> (case encode b of None \<Rightarrow> None | Some y \<Rightarrow> Some (x @ y)))"
  by (induction a) (auto split: option.splits)

lemma length_u: "length (u s) = length s"
  by (simp add: u_def)

lemma set_av_payload_length:
  "length (set_av_payload url 0) = 496 + length url"
  by (simp add: set_av_payload_def length_u LF_def URN_AVTransport_def format_int_def
      decimal.simps)

lemma set_av_payload_encoded:
  "map_option length (encode (set_av_payload url 0)) =
     map_option (\<lambda>n. 496 + n) (map_option length (encode url))"
  unfolding set_av_payload_def
  apply (simp only: encode_append)
  apply (simp add: u_def LF_def URN_AVTransport_def format_int_def decimal.simps encode_ascii
      del: encode.simps split: option.splits)
  done

section \<open>Discovery with the default search target\<close>

lemma payload_default_ascii:
  "\<forall>c\<in>set (discover_payload (u ''ssdp:all'') 3). c < 128"
  by (simp add: discover_payload_def SSDP_GROUP_def CRLF_def u_def format_int_def decimal.simps)

lemma discover_default:
  "discover nd Udp_Ok nm (u ''ssdp:all'') 3 ts w =
     (case discover_loop nd nm ts []
        (w\<lparr>udp_socket := Sock_Open,
            udp_sent := udp_sent w @
              [(SSDP_GROUP, map of_nat (discover_payload (u ''ssdp:all'') 3))]\<rparr>) of
        (r, w2) \<Rightarrow> (r, send_udp_exit r w2))"
  by (simp add: discover_def send_udp_enter_def encode_ascii[OF payload_default_ascii])

text \<open>A response whose description cannot be fetched.\<close>

lemma init_example_failed:
  "DlnapDevice_init ascii_digit
     (Text (u ''LOCATION: http://10.0.0.5:80/desc.xml'' @ CRLF)) addr (Fetch_Failed e) w =
   (Inr \<lparr>ip = addr, port = Some 80, control_url = None, name = None,
          has_av_transport = False, location = u ''http://10.0.0.5:80/desc.xml''\<rparr>,
    print (u ''http://10.0.0.5:80/desc.xml'') (print addr (print e w)))"
  by (simp add: DlnapDevice_init_def get_location_url_def u_def CRLF_def replace_def
      get_port_def port_pattern_def findall_def rmatch_eval dot_def ascii_digit_def
      int_of_digits_def del: rmatch.simps(2))

text \<open>A response whose description names the device and lists no service.\<close>

lemma init_example_named:
  "DlnapDevice_init ascii_digit
     (Text (u ''LOCATION: http://10.0.0.5:80/desc.xml'' @ CRLF)) addr
     (Fetched (u ''<friendlyName>Kitchen Speaker</friendlyName>'')) w =
   (Inr \<lparr>ip = addr, port = Some 80, control_url = Some [], name = Some (u ''Kitchen Speaker''),
          has_av_transport = False, location = u ''http://10.0.0.5:80/desc.xml''\<rparr>, w)"
  by (simp add: DlnapDevice_init_def get_location_url_def u_def CRLF_def replace_def
      get_port_def port_pattern_def findall_def rmatch_eval dot_def ascii_digit_def int_of_digits_def
      get_friendly_name_def friendly_name_pattern_def first_or_def
      get_control_url_def control_url_pattern_def URN_AVTransport_def LF_def del: rmatch.simps(2))

section \<open>The commands: what is issued\<close>

lemma issued_append: "issued (a @ b) = issued a @ issued b"
  by (induction a rule: issued.induct) simp_all

lemma send_tcp_issued:
  "issued (tcp_trace (snd (send_tcp env to payload w))) = issued (tcp_trace w) @ [(to, payload)]"
  by (simp add: send_tcp_def tcp_log_def Let_def issued_append split: option.splits)

lemma play_issued:
  "issued (tcp_trace (snd (play env1 env2 self url w))) =
     issued (tcp_trace w) @
       (if fst (set_av env1 self url 0 w) = Inr ()
        then [((ip self, port self), join CRLF (set_av_header self (set_av_payload url 0))),
              ((ip self, port self), join CRLF (play_header self (play_payload 0)))]
        else [((ip self, port self), join CRLF (set_av_header self (set_av_payload url 0)))])"
proof -
  obtain r w1 where s: "set_av env1 self url 0 w = (r, w1)"
    by (cases "set_av env1 self url 0 w")
  have first: "issued (tcp_trace w1) =
      issued (tcp_trace w) @
        [((ip self, port self), join CRLF (set_av_header self (set_av_payload url 0)))]"
    using s send_tcp_issued[of env1 "(ip self, port self)"
        "join CRLF (set_av_header self (set_av_payload url 0))" w]
    by (simp add: set_av_def Let_def)
  show ?thesis
  proof (cases r)
    case (Inl e)
    with s first show ?thesis by (simp add: play_def)
  next
    case (Inr v)
    with s first
      send_tcp_issued[of env2 "(ip self, port self)" "join CRLF (play_header self (play_payload 0))" w1]
    show ?thesis by (simp add: play_def play_action_def Let_def)
  qed
qed

lemma play_raises_first:
  "fst (set_av env1 self url 0 w) \<noteq> Inr () \<Longrightarrow>
     fst (play env1 env2 self url w) = fst (set_av env1 self url 0 w)"
  by (cases "set_av env1 self url 0 w") (auto simp: play_def split: sum.splits)

lemma startswith_append: "startswith n (n @ b)"
  by (induction n) simp_all

lemma contains_prefix: "contains n (n @ b)"
proof (cases "n @ b")
  case Nil
  then show ?thesis by simp
next
  case (Cons x xs)
  with startswith_append[of n b] have "startswith n (x # xs)" by simp
  with Cons show ?thesis by simp
qed

lemma contains_append: "contains n (a @ n @ b)"
  by (induction a) (simp_all add: contains_prefix)

lemma contains_url: "contains url (set_av_payload url i)"
proof -
  obtain a b where "set_av_payload url i = a @ url @ b"
    unfolding set_av_payload_def by (metis append_assoc)
  then show ?thesis by (simp add: contains_append)
qed

lemma contains_speed: "contains (u ''<Speed>1</Speed>'') (play_payload 0)"
  by (simp add: play_payload_def u_def LF_def URN_AVTransport_def format_int_def decimal.simps)

text \<open>A device and a URL for which the first send succeeds.\<close>

lemma send_tcp_ok:
  assumes "encode payload = Some bs" and "0 \<le> p" and "p \<le> 65535"
  shows "fst (send_tcp Tcp_Ok (a, Some p) payload w) = Inr ()"
  using assms by (simp add: send_tcp_def Let_def)

lemma encode_ascii_list:
  "list_all (\<lambda>c. c < 128) s \<Longrightarrow> encode s = Some (map of_nat s)"
  by (rule encode_ascii) (simp add: list_all_iff)

lemma set_av_example_ok:
  "fst (set_av Tcp_Ok
      \<lparr>ip = u ''10.0.0.5'', port = Some 80, control_url = Some (u ''/ctrl''),
        name = Some (u ''TV''), has_av_transport = True,
        location = u ''http://10.0.0.5:80/desc.xml''\<rparr>
      (u ''http://10.0.0.9/a.mp3'') 0 w) = Inr ()"
proof -
  have "list_all (\<lambda>c. c < 128)
      (join CRLF (set_av_header
        \<lparr>ip = u ''10.0.0.5'', port = Some 80, control_url = Some (u ''/ctrl''),
          name = Some (u ''TV''), has_av_transport = True,
          location = u ''http://10.0.0.5:80/desc.xml''\<rparr>
        (set_av_payload (u ''http://10.0.0.9/a.mp3'') 0)))"
    unfolding set_av_header_def set_av_payload_length
    by (simp add: set_av_payload_def CRLF_def LF_def URN_AVTransport_def format_opt_def
        format_int_def decimal.simps length_u u_def)
  from encode_ascii_list[OF this] show ?thesis
    by (simp add: set_av_def Let_def send_tcp_ok)
qed

section \<open>The claims\<close>

text \<open>
  C2.  The claim: the multicast socket is closed on every exit path of \<open>discover\<close>, also
  when the wait reports a socket error and \<open>discover\<close> raises.  The code: in \<open>_send_udp\<close>
  no \<open>try\<close>/\<open>finally\<close> encloses the \<open>yield\<close>, so \<open>sock.close()\<close> runs only when the
  body of the \<open>with\<close> statement ends normally.  When \<open>select\<close> reports the socket in error
  at the first turn, \<open>discover\<close> raises \<open>Exception('Getting response failed')\<close> and the
  socket is still open.  (By \<open>discover_socket\<close> the same holds after every exception
  that leaves \<open>discover\<close> once the socket exists.)
\<close>

theorem C2_socket_left_open:
  "fst (discover ascii_digit Udp_Ok None (u ''ssdp:all'') 3 [Waited Errored] world0) =
     Raised (Exception (u ''Getting response failed'')) \<and>
   udp_socket (snd (discover ascii_digit Udp_Ok None (u ''ssdp:all'') 3 [Waited Errored] world0)) =
     Sock_Open"
  by (simp add: discover_default send_udp_exit_def)

text \<open>
  C4.  The claim: \<open>_get_control_url\<close> returns the control URL that belongs to the
  AVTransport service.  The code: both \<open>.*\<close> of the pattern are greedy, so the group is the
  text of the last \<open><controlURL>\<close> of the description.  For a description that lists
  AVTransport with control URL \<open>/a\<close> and then RenderingControl with control URL \<open>/b\<close>
  the result is \<open>/b\<close>.
\<close>

theorem C4_last_control_url:
  "get_control_url
     (u ''<serviceType>urn:schemas-upnp-org:service:AVTransport:1</serviceType>'' @
      u ''<controlURL>/a</controlURL>'' @
      u ''<serviceType>urn:schemas-upnp-org:service:RenderingControl:1</serviceType>'' @
      u ''<controlURL>/b</controlURL>'')
   = u ''/b''"
  by (simp add: get_control_url_def control_url_pattern_def URN_AVTransport_def findall_def
      rmatch_eval dot_def u_def first_or_def replace_def LF_def del: rmatch.simps(2))

text \<open>
  C5.  The claim: a filter that matches no device makes \<open>discover\<close> return the empty list
  and not raise.  The code: with the filter \<open>TV\<close> and one response whose description
  cannot be fetched, the name of the device is \<open>None\<close>, the test \<open>name in d.name\<close> raises
  and \<open>discover\<close> ends with \<open>TypeError\<close>.
\<close>

theorem C5_filter_raises:
  "fst (discover ascii_digit Udp_Ok (Some (u ''TV'')) (u ''ssdp:all'') 3
     [Waited (Readable (Text (u ''LOCATION: http://10.0.0.5:80/desc.xml'' @ CRLF))
        (u ''10.0.0.5'') (Fetch_Failed (u ''timed out''))),
      Expired] world0) = Raised TypeError"
  by (simp add: discover_default init_example_failed name_test_def) (simp add: u_def)

text \<open>
  C7.  The claim: \<open>_get_location_url\<close> looks for a line that begins with \<open>LOCATION: \<close>,
  colon and space, and returns the rest of that line, or the empty text.  The code: the
  line is chosen by the prefix \<open>LOCATION:\<close> without the space, and \<open>LOCATION: \<close> with the
  space is then removed by \<open>replace\<close>.  A header line without the space is returned whole,
  the header name included.
\<close>

theorem C7_location_without_space:
  "get_location_url
     (u ''HTTP/1.1 200 OK'' @ CRLF @ u ''LOCATION:http://10.0.0.5:80/desc.xml'' @ CRLF @ CRLF)
   = u ''LOCATION:http://10.0.0.5:80/desc.xml''"
  by (simp add: get_location_url_def u_def CRLF_def replace_def)

text \<open>
  C8.  The claim: the \<open>Content-Length\<close> field is the number of bytes of the body that is
  sent.  The code: the field is \<open>len(payload)\<close>, the number of code points, and the body is
  sent as UTF-8.  For a URL with the letter U+00E9 the field of the SetAVTransportURI
  request says 520 and the body has 521 bytes.
\<close>

theorem C8_content_length_counts_code_points:
  "set_av_header self (set_av_payload (u ''http://10.0.0.9/caf'' @ [233] @ u ''.mp3'') 0) ! 5
     = u ''Content-Length: 520'' \<and>
   map_option length (encode (set_av_payload (u ''http://10.0.0.9/caf'' @ [233] @ u ''.mp3'') 0))
     = Some 521"
proof
  show "set_av_header self (set_av_payload (u ''http://10.0.0.9/caf'' @ [233] @ u ''.mp3'') 0) ! 5
     = u ''Content-Length: 520''"
    unfolding set_av_header_def set_av_payload_length
    by (simp add: format_int_def decimal.simps length_u) (simp add: u_def)
  show "map_option length (encode (set_av_payload (u ''http://10.0.0.9/caf'' @ [233] @ u ''.mp3'') 0))
     = Some 521"
    unfolding set_av_payload_encoded
    by (simp add: u_def encode_cp_def)
qed

text \<open>
  C9.  The claim: \<open>_get_friendly_name\<close> returns the text of the first \<open><friendlyName>\<close>
  element.  The code: the \<open>.*\<close> of the pattern is greedy, so the group runs to the last
  \<open></friendlyName>\<close> of the line.  For two elements on one line the result is the text
  from the first name to the second, tags included.
\<close>

theorem C9_greedy_name:
  "get_friendly_name (u ''<friendlyName>A</friendlyName><friendlyName>B</friendlyName>'')
   = u ''A</friendlyName><friendlyName>B''"
  by (simp add: get_friendly_name_def friendly_name_pattern_def findall_def rmatch_eval dot_def
      u_def first_or_def del: rmatch.simps(2))

text \<open>
  C10.  When \<open>discover\<close> is called with a filter that is not empty, has received the turns
  \<open>pre\<close> and is still running, and the next turn brings a response whose description cannot
  be fetched, then \<open>discover\<close> raises \<open>TypeError\<close>, whatever follows: the device has the
  name \<open>None\<close>, no device of the list is equal to it, and the test \<open>name in d.name\<close>
  raises.  No list is returned.
\<close>

theorem C10_filter_meets_unnamed_device:
  assumes "n \<noteq> []"
    and "discover nd env (Some n) st mx pre w = (Running ds, w')"
  shows "fst (discover nd env (Some n) st mx
                (pre @ Waited (Readable (Text raw) addr (Fetch_Failed e)) # post) w)
           = Raised TypeError"
proof -
  have "\<And>e. Running ds \<noteq> Raised e" by simp
  with assms(2) obtain w1 w2
    where enter: "send_udp_enter env SSDP_GROUP (discover_payload st mx) w = (Inr (), w1)"
      and pre: "discover_loop nd (Some n) pre [] w1 = (Running ds, w2)"
    by (rule discover_loop_result)
  obtain r w3 where init: "DlnapDevice_init nd (Text raw) addr (Fetch_Failed e) w2 = (r, w3)"
    by (cases "DlnapDevice_init nd (Text raw) addr (Fetch_Failed e) w2")
  from init_failed[OF init] obtain d where d: "r = Inr d" "name d = None" by blast
  from loop_named[OF assms(1) pre] d(2) have fresh: "\<not> list_ex (\<lambda>x. device_eq x d) ds"
    by (auto simp: list_ex_iff device_eq_def)
  from assms(1) d(2) have "name_test (Some n) d = Inl TypeError"
    by (simp add: name_test_def)
  with init d(1) fresh
  have "discover_loop nd (Some n) (Waited (Readable (Text raw) addr (Fetch_Failed e)) # post) ds w2
          = (Raised TypeError, w3)"
    by simp
  with pre
  have "discover_loop nd (Some n) (pre @ Waited (Readable (Text raw) addr (Fetch_Failed e)) # post)
          [] w1 = (Raised TypeError, w3)"
    by (simp add: loop_append)
  with enter show ?thesis by (simp add: discover_def)
qed

text \<open>
  The hypotheses of C10 hold for the filter \<open>TV\<close> after one idle turn.
\<close>

theorem C10_witness:
  "u ''TV'' \<noteq> [] \<and>
   fst (discover ascii_digit Udp_Ok (Some (u ''TV'')) (u ''ssdp:all'') 3 [Waited Idle] world0)
     = Running [] \<and>
   fst (discover ascii_digit Udp_Ok (Some (u ''TV'')) (u ''ssdp:all'') 3
          ([Waited Idle] @
           Waited (Readable (Text (u ''LOCATION: http://10.0.0.5:80/desc.xml'' @ CRLF))
             (u ''10.0.0.5'') (Fetch_Failed (u ''timed out''))) # [Expired]) world0)
     = Raised TypeError"
proof -
  have n: "u ''TV'' \<noteq> []" by (simp add: u_def)
  obtain w' where run:
    "discover ascii_digit Udp_Ok (Some (u ''TV'')) (u ''ssdp:all'') 3 [Waited Idle] world0
       = (Running [], w')"
    by (simp add: discover_default send_udp_exit_def)
  from C10_filter_meets_unnamed_device[OF n run] n run show ?thesis by simp
qed

text \<open>
  C1, as amended.  For a response whose description cannot be fetched, the construction
  of the device does not raise: it gives a device with \<open>has_av_transport\<close> false and
  \<open>control_url\<close> \<open>None\<close> (unset, not the empty text).  When \<open>discover\<close> is called with
  no filter or the empty filter, receives the response before the deadline and returns,
  the list holds a device equal to that one (same address, name unset), with
  \<open>has_av_transport\<close> false and \<open>control_url\<close> \<open>None\<close>.
\<close>

theorem C1_failed_fetch_device:
  assumes "nm = None \<or> nm = Some []"
    and "discover nd env nm st mx ts w = (Returned ds, w')"
    and "Waited (Readable (Text raw) addr (Fetch_Failed e)) \<in> set (takeWhile (\<lambda>t. t \<noteq> Expired) ts)"
  shows "\<exists>d. fst (DlnapDevice_init nd (Text raw) addr (Fetch_Failed e) wa) = Inr d \<and>
           \<not> has_av_transport d \<and> control_url d = None \<and>
           (\<exists>x\<in>set ds. device_eq x d \<and> \<not> has_av_transport x \<and> control_url x = None)"
proof -
  obtain r wb where init: "DlnapDevice_init nd (Text raw) addr (Fetch_Failed e) wa = (r, wb)"
    by (cases "DlnapDevice_init nd (Text raw) addr (Fetch_Failed e) wa")
  from init_failed[OF init] obtain d
    where d: "r = Inr d" "name d = None" "\<not> has_av_transport d" "control_url d = None"
    by blast
  from init d(1) have fst: "fst (DlnapDevice_init nd (Text raw) addr (Fetch_Failed e) wa) = Inr d"
    by simp
  from assms(1) have keep: "name_test nm d = Inr True"
    by (auto simp: name_test_def)
  have "\<And>e. Returned ds \<noteq> Raised e" by simp
  with assms(2) obtain w1 w2 where loop: "discover_loop nd nm ts [] w1 = (Returned ds, w2)"
    by (rule discover_loop_result)
  from loop_present[OF fst keep loop assms(3)] obtain x
    where x: "x \<in> set ds" "device_eq x d" by blast
  from x(2) d(2) have "name x = None" by (simp add: device_eq_def)
  with loop_unnamed_fields[OF loop] x(1)
  have "\<not> has_av_transport x \<and> control_url x = None" by blast
  with fst d x show ?thesis by blast
qed

text \<open>
  C1 as stated fails: the device of a failed fetch is in the list with \<open>control_url\<close>
  \<open>None\<close>, where the claim says the empty text.
\<close>

theorem C1_control_url_is_None:
  "fst (discover ascii_digit Udp_Ok None (u ''ssdp:all'') 3
     [Waited (Readable (Text (u ''LOCATION: http://10.0.0.5:80/desc.xml'' @ CRLF))
        (u ''10.0.0.5'') (Fetch_Failed (u ''timed out''))),
      Expired] world0) =
   Returned [\<lparr>ip = u ''10.0.0.5'', port = Some 80, control_url = None, name = None,
               has_av_transport = False, location = u ''http://10.0.0.5:80/desc.xml''\<rparr>]"
  by (simp add: discover_default init_example_failed name_test_def device_eq_def)

text \<open>
  The hypotheses of the amended C1 hold for a call without filter that receives one such
  response.
\<close>

theorem C1_witness:
  "\<exists>d. fst (DlnapDevice_init ascii_digit (Text (u ''LOCATION: http://10.0.0.5:80/desc.xml'' @ CRLF))
            (u ''10.0.0.5'') (Fetch_Failed (u ''timed out'')) world0) = Inr d \<and>
       \<not> has_av_transport d \<and> control_url d = None \<and>
       (\<exists>x\<in>set [\<lparr>ip = u ''10.0.0.5'', port = Some 80, control_url = None, name = None,
               has_av_transport = False, location = u ''http://10.0.0.5:80/desc.xml''\<rparr>].
          device_eq x d \<and> \<not> has_av_transport x \<and> control_url x = None)"
proof -
  obtain w' where run: "discover ascii_digit Udp_Ok None (u ''ssdp:all'') 3
     [Waited (Readable (Text (u ''LOCATION: http://10.0.0.5:80/desc.xml'' @ CRLF))
        (u ''10.0.0.5'') (Fetch_Failed (u ''timed out''))),
      Expired] world0 =
   (Returned [\<lparr>ip = u ''10.0.0.5'', port = Some 80, control_url = None, name = None,
               has_av_transport = False, location = u ''http://10.0.0.5:80/desc.xml''\<rparr>], w')"
    by (simp add: discover_default init_example_failed name_test_def device_eq_def
        send_udp_exit_def)
  have rcv: "Waited (Readable (Text (u ''LOCATION: http://10.0.0.5:80/desc.xml'' @ CRLF))
        (u ''10.0.0.5'') (Fetch_Failed (u ''timed out'')))
      \<in> set (takeWhile (\<lambda>t. t \<noteq> Expired)
     [Waited (Readable (Text (u ''LOCATION: http://10.0.0.5:80/desc.xml'' @ CRLF))
        (u ''10.0.0.5'') (Fetch_Failed (u ''timed out''))),
      Expired])"
    by simp
  have "None = None \<or> None = Some ([]::str)" by simp
  from C1_failed_fetch_device[OF this run rcv] show ?thesis .
qed

text \<open>
  C3, as amended.  Two devices are equal exactly when their names and their addresses are
  the same; the port and the control URL play no part.  Let \<open>discover\<close> return a list
  after it has received, before the deadline, two responses whose devices have the same
  name and the same address.  Then the list holds at most one device equal to them;
  exactly one when the name passes the filter (there is no filter, or it is empty, or it
  occurs in the name); none when the filter does not occur in the name.
\<close>

theorem C3_dedup:
  assumes "discover nd env nm st mx ts w = (Returned ds, w')"
    and "Waited (Readable data1 addr1 f1) \<in> set (takeWhile (\<lambda>t. t \<noteq> Expired) ts)"
    and "Waited (Readable data2 addr2 f2) \<in> set (takeWhile (\<lambda>t. t \<noteq> Expired) ts)"
    and "fst (DlnapDevice_init nd data1 addr1 f1 wa) = Inr d1"
    and "fst (DlnapDevice_init nd data2 addr2 f2 wb) = Inr d2"
    and "name d1 = name d2" and "ip d1 = ip d2"
  shows "(device_eq a b \<longleftrightarrow> name a = name b \<and> ip a = ip b) \<and>
         device_eq (a\<lparr>port := p, control_url := c\<rparr>) b = device_eq a b \<and>
         filter (\<lambda>x. device_eq x d2) ds = filter (\<lambda>x. device_eq x d1) ds \<and>
         length (filter (\<lambda>x. device_eq x d1) ds) \<le> 1 \<and>
         (name_test nm d1 = Inr True \<longrightarrow> length (filter (\<lambda>x. device_eq x d1) ds) = 1) \<and>
         (name_test nm d1 = Inr False \<longrightarrow> length (filter (\<lambda>x. device_eq x d1) ds) = 0)"
proof -
  have "\<And>e. Returned ds \<noteq> Raised e" by simp
  with assms(1) obtain w1 w2 where loop: "discover_loop nd nm ts [] w1 = (Returned ds, w2)"
    by (rule discover_loop_result)
  have eq: "device_eq a b \<longleftrightarrow> name a = name b \<and> ip a = ip b"
    by (simp add: device_eq_def)
  have upd: "device_eq (a\<lparr>port := p, control_url := c\<rparr>) b = device_eq a b"
    by (simp add: device_eq_def)
  from assms(6,7) have same: "filter (\<lambda>x. device_eq x d2) ds = filter (\<lambda>x. device_eq x d1) ds"
    by (simp add: device_eq_def)
  have le: "length (filter (\<lambda>x. device_eq x d1) ds) \<le> 1"
    by (rule loop_distinct[OF loop])
  have one: "length (filter (\<lambda>x. device_eq x d1) ds) = 1" if keep: "name_test nm d1 = Inr True"
  proof -
    from loop_present[OF assms(4) keep loop assms(2)]
    have "filter (\<lambda>x. device_eq x d1) ds \<noteq> []"
      by (auto simp: filter_empty_conv)
    then have "0 < length (filter (\<lambda>x. device_eq x d1) ds)" by simp
    with le show ?thesis by linarith
  qed
  have none: "length (filter (\<lambda>x. device_eq x d1) ds) = 0" if "name_test nm d1 = Inr False"
    using loop_absent[OF loop that] by simp
  from eq upd same le one none show ?thesis by blast
qed

text \<open>
  C3 as stated fails: with the filter \<open>TV\<close>, two responses of the device
  \<open>Kitchen Speaker\<close> at one address leave no device in the list, where the claim says
  exactly one.
\<close>

theorem C3_filtered_out:
  "fst (discover ascii_digit Udp_Ok (Some (u ''TV'')) (u ''ssdp:all'') 3
     [Waited (Readable (Text (u ''LOCATION: http://10.0.0.5:80/desc.xml'' @ CRLF))
        (u ''10.0.0.5'') (Fetched (u ''<friendlyName>Kitchen Speaker</friendlyName>''))),
      Waited (Readable (Text (u ''LOCATION: http://10.0.0.5:80/desc.xml'' @ CRLF))
        (u ''10.0.0.5'') (Fetched (u ''<friendlyName>Kitchen Speaker</friendlyName>''))),
      Expired] world0) = Returned []"
  by (simp add: discover_default init_example_named name_test_def device_eq_def)
     (simp add: u_def)

text \<open>
  The hypotheses of the amended C3 hold for a call without filter that receives the same
  response twice; the list holds the device once.
\<close>

theorem C3_witness:
  "fst (discover ascii_digit Udp_Ok None (u ''ssdp:all'') 3
     [Waited (Readable (Text (u ''LOCATION: http://10.0.0.5:80/desc.xml'' @ CRLF))
        (u ''10.0.0.5'') (Fetched (u ''<friendlyName>Kitchen Speaker</friendlyName>''))),
      Waited (Readable (Text (u ''LOCATION: http://10.0.0.5:80/desc.xml'' @ CRLF))
        (u ''10.0.0.5'') (Fetched (u ''<friendlyName>Kitchen Speaker</friendlyName>''))),
      Expired] world0) =
     Returned [\<lparr>ip = u ''10.0.0.5'', port = Some 80, control_url = Some [],
                 name = Some (u ''Kitchen Speaker''), has_av_transport = False,
                 location = u ''http://10.0.0.5:80/desc.xml''\<rparr>] \<and>
   length (filter (\<lambda>x. device_eq x \<lparr>ip = u ''10.0.0.5'', port = Some 80, control_url = Some [],
                 name = Some (u ''Kitchen Speaker''), has_av_transport = False,
                 location = u ''http://10.0.0.5:80/desc.xml''\<rparr>)
      [\<lparr>ip = u ''10.0.0.5'', port = Some 80, control_url = Some [],
                 name = Some (u ''Kitchen Speaker''), has_av_transport = False,
                 location = u ''http://10.0.0.5:80/desc.xml''\<rparr>]) = 1"
proof -
  let ?r = "Waited (Readable (Text (u ''LOCATION: http://10.0.0.5:80/desc.xml'' @ CRLF))
        (u ''10.0.0.5'') (Fetched (u ''<friendlyName>Kitchen Speaker</friendlyName>'')))"
  let ?d = "\<lparr>ip = u ''10.0.0.5'', port = Some 80, control_url = Some [],
                 name = Some (u ''Kitchen Speaker''), has_av_transport = False,
                 location = u ''http://10.0.0.5:80/desc.xml''\<rparr>"
  obtain w' where run:
    "discover ascii_digit Udp_Ok None (u ''ssdp:all'') 3 [?r, ?r, Expired] world0
       = (Returned [?d], w')"
    by (simp add: discover_default init_example_named name_test_def device_eq_def
        send_udp_exit_def)
  have rcv: "?r \<in> set (takeWhile (\<lambda>t. t \<noteq> Expired) [?r, ?r, Expired])"
    by simp
  have dev: "fst (DlnapDevice_init ascii_digit
       (Text (u ''LOCATION: http://10.0.0.5:80/desc.xml'' @ CRLF)) (u ''10.0.0.5'')
       (Fetched (u ''<friendlyName>Kitchen Speaker</friendlyName>'')) world0) = Inr ?d"
    by (simp add: init_example_named)
  have keep: "name_test None ?d = Inr True"
    by (simp add: name_test_def)
  from C3_dedup[OF run rcv rcv dev dev refl refl] keep run show ?thesis by simp
qed

text \<open>
  C6, as amended.  \<open>play(url)\<close> issues the SetAVTransportURI send, whose body holds the
  given URL.  When that send raises, \<open>play\<close> raises the same error and issues nothing
  more.  In every other case it then issues the Play send, whose body carries \<open>Speed\<close> 1;
  nothing else of the first send is looked at.  Both go to the address and port of the
  device; each request ends with its body.
\<close>

theorem C6_play_sends:
  \<open>issued (tcp_trace (snd (play env1 env2 self url w))) =
     issued (tcp_trace w) @
       (if fst (set_av env1 self url 0 w) = Inr ()
        then [((ip self, port self), join CRLF (set_av_header self (set_av_payload url 0))),
              ((ip self, port self), join CRLF (play_header self (play_payload 0)))]
        else [((ip self, port self), join CRLF (set_av_header self (set_av_payload url 0)))]) \<and>
   (fst (set_av env1 self url 0 w) \<noteq> Inr () \<longrightarrow>
      fst (play env1 env2 self url w) = fst (set_av env1 self url 0 w)) \<and>
   set_av_header self (set_av_payload url 0) ! 6 =
     u ''SOAPACTION: "'' @ URN_AVTransport @ u ''#SetAVTransportURI"'' \<and>
   last (set_av_header self (set_av_payload url 0)) = set_av_payload url 0 \<and>
   contains url (set_av_payload url 0) \<and>
   play_header self (play_payload 0) ! 6 = u ''SOAPACTION: "'' @ URN_AVTransport @ u ''#Play"'' \<and>
   last (play_header self (play_payload 0)) = play_payload 0 \<and>
   contains (u ''<Speed>1</Speed>'') (play_payload 0)\<close>
  using play_issued[of env1 env2 self url w] play_raises_first[of env1 self url w env2]
    contains_url[of url 0] contains_speed
  by (simp add: set_av_header_def play_header_def)

text \<open>
  C6 as stated fails: when the connection of the first send is refused, \<open>play\<close> raises
  \<open>OSError\<close> and has issued one send, where the claim says exactly two.
\<close>

theorem C6_first_send_fails:
  "fst (play Tcp_No_Connect Tcp_Ok
      \<lparr>ip = u ''10.0.0.5'', port = Some 80, control_url = Some (u ''/ctrl''),
        name = Some (u ''TV''), has_av_transport = True,
        location = u ''http://10.0.0.5:80/desc.xml''\<rparr>
      (u ''http://10.0.0.9/a.mp3'') world0) = Inl OSError \<and>
   length (issued (tcp_trace (snd (play Tcp_No_Connect Tcp_Ok
      \<lparr>ip = u ''10.0.0.5'', port = Some 80, control_url = Some (u ''/ctrl''),
        name = Some (u ''TV''), has_av_transport = True,
        location = u ''http://10.0.0.5:80/desc.xml''\<rparr>
      (u ''http://10.0.0.9/a.mp3'') world0)))) = 1"
proof -
  let ?d = "\<lparr>ip = u ''10.0.0.5'', port = Some 80, control_url = Some (u ''/ctrl''),
        name = Some (u ''TV''), has_av_transport = True,
        location = u ''http://10.0.0.5:80/desc.xml''\<rparr>"
  have first: "fst (set_av Tcp_No_Connect ?d (u ''http://10.0.0.9/a.mp3'') 0 world0) = Inl OSError"
    by (simp add: set_av_def send_tcp_def Let_def)
  with play_raises_first[of Tcp_No_Connect ?d "u ''http://10.0.0.9/a.mp3''" world0 Tcp_Ok]
  have "fst (play Tcp_No_Connect Tcp_Ok ?d (u ''http://10.0.0.9/a.mp3'') world0) = Inl OSError"
    by simp
  moreover from first
    play_issued[of Tcp_No_Connect Tcp_Ok ?d "u ''http://10.0.0.9/a.mp3''" world0]
  have "length (issued (tcp_trace (snd (play Tcp_No_Connect Tcp_Ok ?d
      (u ''http://10.0.0.9/a.mp3'') world0)))) = 1"
    by (simp add: world0_def)
  ultimately show ?thesis by simp
qed

text \<open>
  The amended C6 at a device and a URL for which the first send succeeds: two sends are
  issued.
\<close>

theorem C6_witness:
  "fst (set_av Tcp_Ok
      \<lparr>ip = u ''10.0.0.5'', port = Some 80, control_url = Some (u ''/ctrl''),
        name = Some (u ''TV''), has_av_transport = True,
        location = u ''http://10.0.0.5:80/desc.xml''\<rparr>
      (u ''http://10.0.0.9/a.mp3'') 0 world0) = Inr () \<and>
   length (issued (tcp_trace (snd (play Tcp_Ok Tcp_Ok
      \<lparr>ip = u ''10.0.0.5'', port = Some 80, control_url = Some (u ''/ctrl''),
        name = Some (u ''TV''), has_av_transport = True,
        location = u ''http://10.0.0.5:80/desc.xml''\<rparr>
      (u ''http://10.0.0.9/a.mp3'') world0)))) = 2"
proof -
  let ?d = "\<lparr>ip = u ''10.0.0.5'', port = Some 80, control_url = Some (u ''/ctrl''),
        name = Some (u ''TV''), has_av_transport = True,
        location = u ''http://10.0.0.5:80/desc.xml''\<rparr>"
  have ok: "fst (set_av Tcp_Ok ?d (u ''http://10.0.0.9/a.mp3'') 0 world0) = Inr ()"
    by (rule set_av_example_ok)
  from C6_play_sends[of Tcp_Ok Tcp_Ok ?d "u ''http://10.0.0.9/a.mp3''" world0]
  have "issued (tcp_trace (snd (play Tcp_Ok Tcp_Ok ?d (u ''http://10.0.0.9/a.mp3'') world0))) =
     issued (tcp_trace world0) @
       (if fst (set_av Tcp_Ok ?d (u ''http://10.0.0.9/a.mp3'') 0 world0) = Inr ()
        then [((ip ?d, port ?d), join CRLF (set_av_header ?d (set_av_payload (u ''http://10.0.0.9/a.mp3'') 0))),
              ((ip ?d, port ?d), join CRLF (play_header ?d (play_payload 0)))]
        else [((ip ?d, port ?d), join CRLF (set_av_header ?d (set_av_payload (u ''http://10.0.0.9/a.mp3'') 0)))])"
    by (rule conjunct1)
  then have "length (issued (tcp_trace (snd (play Tcp_Ok Tcp_Ok ?d
      (u ''http://10.0.0.9/a.mp3'') world0)))) = 2"
    unfolding ok by (simp add: world0_def)
  with ok show ?thesis by simp
qed

end
